theory Spec2Isabelle
  imports Main
begin

section \<open>The account switch command (pkg/cmd/auth/switch/switch.go)\<close>

text \<open>
  A shallow embedding of \<^verbatim>\<open>switchRun\<close>. The function talks to collaborators whose
  code lives elsewhere (the configuration, the prompter, the write guard, the terminal);
  each of them is a field of a record, and every call made to one of them is logged, in
  order, in a list of events returned next to the result. A Go return \<^verbatim>\<open>(T, error)\<close> is
  a pair whose second component is \<open>None\<close> for \<^verbatim>\<open>nil\<close>. The store is read as a
  snapshot: within one run a collaborator answers the same call in the same way, so the
  two calls of \<^verbatim>\<open>UsersForHost\<close> on the host flag (lines 91 and 108) see the same users.
\<close>

subsection \<open>Data\<close>

text \<open>
  Go errors: \<^verbatim>\<open>errors.New\<close> and \<^verbatim>\<open>fmt.Errorf\<close> without \<^verbatim>\<open>%w\<close> carry a message,
  \<^verbatim>\<open>fmt.Errorf("...: %w", err)\<close> carries a prefix and the wrapped error, and
  \<^verbatim>\<open>cmdutil.SilentError\<close> is a sentinel. Collaborators may return any of them.
\<close>

datatype error = New string | Wrapped string error | SilentError

text \<open>\<^verbatim>\<open>type hostUser struct { host, user string; active bool }\<close> (lines 52-56).\<close>

record hostUser =
  host :: string
  user :: string
  active :: bool

text \<open>\<^verbatim>\<open>type candidates []hostUser\<close> (line 58).\<close>

type_synonym candidates = "hostUser list"

text \<open>
  What \<^verbatim>\<open>switchRun\<close> uses of \<^verbatim>\<open>cfg.Authentication()\<close>: \<^verbatim>\<open>Hosts()\<close>,
  \<^verbatim>\<open>UsersForHost(host)\<close>, \<^verbatim>\<open>User(host)\<close> (the active user of a host; named
  \<open>AuthUser\<close> here, since the options have a field \<^verbatim>\<open>User\<close> too), \<^verbatim>\<open>SwitchUser(host, user)\<close>,
  and \<^verbatim>\<open>shared.AuthTokenWriteable(authCfg, host)\<close>.
\<close>

record AuthConfig =
  Hosts :: "string list"
  UsersForHost :: "string \<Rightarrow> string list \<times> error option"
  AuthUser :: "string \<Rightarrow> string \<times> error option"
  AuthTokenWriteable :: "string \<Rightarrow> string \<times> bool"
  SwitchUser :: "string \<Rightarrow> string \<Rightarrow> error option"

text \<open>
  \<^verbatim>\<open>SwitchOptions\<close> (lines 16-22). Of \<^verbatim>\<open>IO\<close> the function uses \<^verbatim>\<open>CanPrompt()\<close>,
  the colour scheme's \<^verbatim>\<open>SuccessIcon()\<close> and \<^verbatim>\<open>Bold(s)\<close>, and the stream \<^verbatim>\<open>ErrOut\<close>
  (writes to it are events); of \<^verbatim>\<open>Prompter\<close> it uses \<^verbatim>\<open>Select(prompt, default, options)\<close>.
\<close>

record SwitchOptions =
  CanPrompt :: bool
  SuccessIcon :: string
  Bold :: "string \<Rightarrow> string"
  Config :: "AuthConfig \<times> error option"
  Select :: "string \<Rightarrow> string \<Rightarrow> string list \<Rightarrow> int \<times> error option"
  Hostname :: string
  User :: string

datatype event =
    EvConfig
  | EvHosts
  | EvUsersForHost string
  | EvUser string
  | EvCanPrompt
  | EvSelect string string "string list"
  | EvAuthTokenWriteable string
  | EvSwitchUser string string
  | EvErrOut string

text \<open>
  How a run ends: \<^verbatim>\<open>return nil\<close>, \<^verbatim>\<open>return err\<close>, or the run-time panic of
  \<^verbatim>\<open>candidates[selected]\<close> with \<^verbatim>\<open>selected\<close> out of range.
\<close>

datatype outcome = Success | Failure error | IndexPanic

subsection \<open>Reading the event log\<close>

fun emit :: "event list \<Rightarrow> 'a \<times> event list \<Rightarrow> 'a \<times> event list" where
  "emit evs (r, tr) = (r, evs @ tr)"

fun isSelect :: "event \<Rightarrow> bool" where
  "isSelect (EvSelect p d os) = True"
| "isSelect ev = False"

fun isAuthTokenWriteable :: "event \<Rightarrow> bool" where
  "isAuthTokenWriteable (EvAuthTokenWriteable h) = True"
| "isAuthTokenWriteable ev = False"

fun isSwitchUser :: "event \<Rightarrow> bool" where
  "isSwitchUser (EvSwitchUser h u) = True"
| "isSwitchUser ev = False"

definition chooserCalls :: "event list \<Rightarrow> event list" where
  "chooserCalls tr = filter isSelect tr"

definition writeGuardCalls :: "event list \<Rightarrow> event list" where
  "writeGuardCalls tr = filter isAuthTokenWriteable tr"

definition registerCalls :: "event list \<Rightarrow> event list" where
  "registerCalls tr = filter isSwitchUser tr"

subsection \<open>The function, phase by phase\<close>

text \<open>\<^verbatim>\<open>func (c candidates) inactiveOptions() []hostUser\<close> (lines 60-68).\<close>

fun inactiveOptions :: "candidates \<Rightarrow> hostUser list" where
  "inactiveOptions [] = []"
| "inactiveOptions (candidate # c) =
     (if \<not> active candidate then candidate # inactiveOptions c else inactiveOptions c)"

text \<open>
  Lines 85-96: the checks on the flags. The error of \<^verbatim>\<open>UsersForHost\<close> is assigned to
  \<^verbatim>\<open>_\<close>; the list it returns is searched whatever the error.
\<close>

definition checkFilters ::
  "AuthConfig \<Rightarrow> string list \<Rightarrow> string \<Rightarrow> string \<Rightarrow> error option \<times> event list" where
  "checkFilters authCfg knownHosts hostname username =
     (if hostname \<noteq> [] then
        if hostname \<notin> set knownHosts then
          (Some (New (''not logged in to '' @ hostname)), [])
        else if username \<noteq> [] then
          (let knownUsers = fst (UsersForHost authCfg hostname) in
           if username \<notin> set knownUsers then
             (Some (New (''not logged in as '' @ username @ '' on '' @ hostname)),
              [EvUsersForHost hostname])
           else (None, [EvUsersForHost hostname]))
        else (None, [])
      else (None, []))"

text \<open>Lines 112-117: the inner loop, over the users of one host.\<close>

fun usersLoop :: "string \<Rightarrow> string \<Rightarrow> string \<Rightarrow> string list \<Rightarrow> hostUser list" where
  "usersLoop h hostActiveUser username [] = []"
| "usersLoop h hostActiveUser username (u # us) =
     (if username \<noteq> [] \<and> u \<noteq> username then usersLoop h hostActiveUser username us
      else \<lparr>host = h, user = u, active = (u = hostActiveUser)\<rparr>
             # usersLoop h hostActiveUser username us)"

text \<open>
  Lines 100-118: the outer loop, over the known hosts. It returns the error of the first
  fetch that fails, or the candidates appended host after host.
\<close>

fun hostsLoop ::
  "AuthConfig \<Rightarrow> string \<Rightarrow> string \<Rightarrow> string list \<Rightarrow> (error + candidates) \<times> event list" where
  "hostsLoop authCfg hostname username [] = (Inr [], [])"
| "hostsLoop authCfg hostname username (h # hs) =
     (if hostname \<noteq> [] \<and> h \<noteq> hostname then hostsLoop authCfg hostname username hs
      else
        (case AuthUser authCfg h of
           (hostActiveUser, Some err) \<Rightarrow> (Inl err, [EvUser h])
         | (hostActiveUser, None) \<Rightarrow>
             (case UsersForHost authCfg h of
                (knownUsers, Some err) \<Rightarrow> (Inl err, [EvUser h, EvUsersForHost h])
              | (knownUsers, None) \<Rightarrow>
                  (case hostsLoop authCfg hostname username hs of
                     (Inl err, tr) \<Rightarrow> (Inl err, [EvUser h, EvUsersForHost h] @ tr)
                   | (Inr rest, tr) \<Rightarrow>
                       (Inr (usersLoop h hostActiveUser username knownUsers @ rest),
                        [EvUser h, EvUsersForHost h] @ tr)))))"

text \<open>Lines 134-137: the label of one candidate in the prompt.\<close>

definition promptFor :: "hostUser \<Rightarrow> string" where
  "promptFor c =
     (let prompt = user c @ '' ('' @ host c @ '')''
      in if active c then prompt @ '' - active'' else prompt)"

text \<open>
  Lines 120-147: from the candidates to the host and user to switch to. The left
  summand is a run that ends here.
\<close>

definition selectAccount ::
  "SwitchOptions \<Rightarrow> candidates \<Rightarrow> (outcome + string \<times> string) \<times> event list" where
  "selectAccount opts cands =
     (let inactiveCandidates = inactiveOptions cands in
      if length cands = 0 then
        (Inl (Failure (New ''no user accounts matched that criteria'')), [])
      else if length cands = 1 then
        (Inr (host (cands ! 0), user (cands ! 0)), [])
      else if length inactiveCandidates = 1 then
        (Inr (host (inactiveCandidates ! 0), user (inactiveCandidates ! 0)), [])
      else if \<not> CanPrompt opts then
        (Inl (Failure (New (''unable to determine which user account to switch to, ''
                            @ ''please specify `--hostname` and `--user`''))),
         [EvCanPrompt])
      else
        (let prompts = map promptFor cands;
             asked = [EvCanPrompt, EvSelect ''What account do you want to switch to?'' [] prompts]
         in case Select opts ''What account do you want to switch to?'' [] prompts of
              (selected, Some err) \<Rightarrow>
                (Inl (Failure (Wrapped ''could not prompt: '' err)), asked)
            | (selected, None) \<Rightarrow>
                if 0 \<le> selected \<and> selected < int (length cands) then
                  (Inr (host (cands ! nat selected), user (cands ! nat selected)), asked)
                else (Inl IndexPanic, asked)))"

text \<open>Lines 149-164: the write guard, the switch, the confirmation.\<close>

definition commit ::
  "SwitchOptions \<Rightarrow> AuthConfig \<Rightarrow> string \<Rightarrow> string \<Rightarrow> outcome \<times> event list" where
  "commit opts authCfg hostname username =
     (let (src, writeable) = AuthTokenWriteable authCfg hostname in
      if \<not> writeable then
        (Failure SilentError,
         [EvAuthTokenWriteable hostname,
          EvErrOut (''The value of the '' @ src
                    @ '' environment variable is being used for authentication.\<newline>''),
          EvErrOut (''To have GitHub CLI manage credentials instead, ''
                    @ ''first clear the value from the environment.\<newline>'')])
      else
        (case SwitchUser authCfg hostname username of
           Some err \<Rightarrow>
             (Failure err, [EvAuthTokenWriteable hostname, EvSwitchUser hostname username])
         | None \<Rightarrow>
             (Success,
              [EvAuthTokenWriteable hostname, EvSwitchUser hostname username,
               EvErrOut (SuccessIcon opts @ '' Switched active account on '' @ hostname
                         @ '' to '' @ [CHR 0x27] @ Bold opts username @ [CHR 0x27]
                         @ ''\<newline>'')])))"

text \<open>
  Lines 70-147: everything before the write guard. The right summand is the host and
  user the run has settled on.
\<close>

definition resolve ::
  "SwitchOptions \<Rightarrow> (outcome + string \<times> string) \<times> event list" where
  "resolve opts =
     (let hostname = Hostname opts; username = User opts in
      case Config opts of
        (cfg, Some err) \<Rightarrow> (Inl (Failure err), [EvConfig])
      | (authCfg, None) \<Rightarrow>
          emit [EvConfig]
            (let knownHosts = Hosts authCfg in
             if length knownHosts = 0 then
               (Inl (Failure (New ''not logged in to any hosts'')), [EvHosts])
             else
               emit [EvHosts]
                 (case checkFilters authCfg knownHosts hostname username of
                    (Some err, tr) \<Rightarrow> (Inl (Failure err), tr)
                  | (None, tr) \<Rightarrow>
                      emit tr
                        (case hostsLoop authCfg hostname username knownHosts of
                           (Inl err, tr') \<Rightarrow> (Inl (Failure err), tr')
                         | (Inr cands, tr') \<Rightarrow> emit tr' (selectAccount opts cands)))))"

text \<open>\<^verbatim>\<open>func switchRun(opts *SwitchOptions) error\<close> (lines 70-165).\<close>

definition switchRun :: "SwitchOptions \<Rightarrow> outcome \<times> event list" where
  "switchRun opts =
     (case resolve opts of
        (Inl out, tr) \<Rightarrow> (out, tr)
      | (Inr (hostname, username), tr) \<Rightarrow>
          emit tr (commit opts (fst (Config opts)) hostname username))"

subsection \<open>The candidate set, in the words of the specification\<close>

text \<open>
  The entries of the store that pass the filters, in the store's host order and then in
  each host's user order; an entry is active when its user is the host's active user. An
  empty filter is a filter that is not set.
\<close>

definition storeOrder :: "AuthConfig \<Rightarrow> string \<Rightarrow> string \<Rightarrow> string list \<Rightarrow> hostUser list" where
  "storeOrder authCfg hostname username knownHosts =
     concat (map (\<lambda>h. map (\<lambda>u. \<lparr>host = h, user = u,
                                  active = (u = fst (AuthUser authCfg h))\<rparr>)
                          (filter (\<lambda>u. username = [] \<or> u = username)
                                  (fst (UsersForHost authCfg h))))
                 (filter (\<lambda>h. hostname = [] \<or> h = hostname) knownHosts))"

subsection \<open>A store and options to run the function on\<close>

text \<open>
  Two hosts: alice and bob on the first, alice the active one; alice alone, and active,
  on the second. Nothing overrides the stored tokens and every switch succeeds.
\<close>

definition exampleStore :: AuthConfig where
  "exampleStore =
     \<lparr>Hosts = [''github.com'', ''ghe.io''],
      UsersForHost = (\<lambda>h. if h = ''github.com'' then ([''alice'', ''bob''], None)
                          else if h = ''ghe.io'' then ([''alice''], None)
                          else ([], Some (New ''unknown host''))),
      AuthUser = (\<lambda>h. if h = ''github.com'' \<or> h = ''ghe.io'' then (''alice'', None)
                      else ([], Some (New ''unknown host''))),
      AuthTokenWriteable = (\<lambda>h. ([], True)),
      SwitchUser = (\<lambda>h u. None)\<rparr>"

definition exampleOpts :: SwitchOptions where
  "exampleOpts =
     \<lparr>CanPrompt = True, SuccessIcon = ''ok'', Bold = (\<lambda>s. s),
      Config = (exampleStore, None), Select = (\<lambda>p d os. (1, None)),
      Hostname = [], User = []\<rparr>"

text \<open>A third user on the first host: two inactive users next to the active one.\<close>

definition crowdedStore :: AuthConfig where
  "crowdedStore =
     exampleStore\<lparr>UsersForHost := (\<lambda>h. if h = ''github.com''
                                            then ([''alice'', ''bob'', ''carol''], None)
                                          else ([''alice''], None))\<rparr>"

text \<open>The same store with bob, the second user of the first host, as its active user.\<close>

definition secondActiveStore :: AuthConfig where
  "secondActiveStore = exampleStore\<lparr>AuthUser := (\<lambda>h. (''bob'', None))\<rparr>"

text \<open>The same store behind a token taken from the environment.\<close>

definition overriddenStore :: AuthConfig where
  "overriddenStore = exampleStore\<lparr>AuthTokenWriteable := (\<lambda>h. (''GH_TOKEN'', False))\<rparr>"

text \<open>Stores whose reads fail: the active user of the second host, its users, and the
  users of the first host.\<close>

definition brokenActiveStore :: AuthConfig where
  "brokenActiveStore =
     exampleStore\<lparr>AuthUser := (\<lambda>h. if h = ''github.com'' then (''alice'', None)
                                   else ([], Some (New ''cannot read active user'')))\<rparr>"

definition brokenUsersStore :: AuthConfig where
  "brokenUsersStore =
     exampleStore\<lparr>UsersForHost := (\<lambda>h. if h = ''github.com'' then ([''alice'', ''bob''], None)
                                       else ([], Some (New ''cannot read users'')))\<rparr>"

definition lockedStore :: AuthConfig where
  "lockedStore = exampleStore\<lparr>UsersForHost := (\<lambda>h. ([], Some (New ''keyring locked'')))\<rparr>"

section \<open>Auxiliary facts\<close>

lemma fst_emit: "fst (emit evs p) = fst p"
  by (cases p) simp

lemma snd_emit: "snd (emit evs p) = evs @ snd p"
  by (cases p) simp

text \<open>The inactive options are the candidates whose active flag is false, in order.\<close>

lemma inactiveOptions_filter:
  "inactiveOptions cs = filter (\<lambda>x. \<not> active x) cs"
  by (induction cs) simp_all

lemma usersLoop_map:
  "usersLoop h au un us =
     map (\<lambda>u. \<lparr>host = h, user = u, active = (u = au)\<rparr>) (filter (\<lambda>u. un = [] \<or> u = un) us)"
  by (induction us) auto

lemma hostsLoop_storeOrder:
  "hostsLoop a hn un hs = (Inr cs, tr) \<Longrightarrow> cs = storeOrder a hn un hs"
proof (induction hs arbitrary: cs tr)
  case Nil
  then show ?case by (simp add: storeOrder_def)
next
  case (Cons h hs)
  show ?case
  proof (cases "hn \<noteq> [] \<and> h \<noteq> hn")
    case True
    with Cons show ?thesis by (auto simp: storeOrder_def)
  next
    case False
    with Cons.prems obtain au us rest tr' where
      au: "AuthUser a h = (au, None)" and us: "UsersForHost a h = (us, None)"
      and rest: "hostsLoop a hn un hs = (Inr rest, tr')"
      and cs: "cs = usersLoop h au un us @ rest"
      by (auto split: prod.splits option.splits sum.splits)
    from Cons.IH [OF rest] have "rest = storeOrder a hn un hs" .
    with False au us cs show ?thesis
      by (auto simp: storeOrder_def usersLoop_map)
  qed
qed

lemma hostsLoop_events:
  "ev \<in> set (snd (hostsLoop a hn un hs)) \<Longrightarrow> \<exists>h. ev = EvUser h \<or> ev = EvUsersForHost h"
  by (induction hs arbitrary: ev) (auto split: prod.splits option.splits sum.splits if_splits)

lemma hostsLoop_append:
  "hostsLoop a hn un (pre @ post) =
     (case hostsLoop a hn un pre of
        (Inl err, tr) \<Rightarrow> (Inl err, tr)
      | (Inr cs, tr) \<Rightarrow>
          (case hostsLoop a hn un post of
             (Inl err, tr') \<Rightarrow> (Inl err, tr @ tr')
           | (Inr cs', tr') \<Rightarrow> (Inr (cs @ cs'), tr @ tr')))"
  by (induction pre) (auto split: prod.splits option.splits sum.splits)

lemma hostsLoop_cong:
  "UsersForHost a1 = UsersForHost a2 \<Longrightarrow> AuthUser a1 = AuthUser a2 \<Longrightarrow>
   hostsLoop a1 hn un hs = hostsLoop a2 hn un hs"
  by (induction hs) (auto split: prod.splits option.splits sum.splits)

lemma storeOrder_nonempty_checkFilters:
  "storeOrder a hn un hs \<noteq> [] \<Longrightarrow> fst (checkFilters a hs hn un) = None"
  by (auto simp: storeOrder_def checkFilters_def Let_def filter_empty_conv)

lemma checkFilters_events:
  "ev \<in> set (snd (checkFilters a hs hn un)) \<Longrightarrow> ev = EvUsersForHost hn"
  by (auto simp: checkFilters_def Let_def split: if_splits)

lemma selectAccount_events:
  "ev \<in> set (snd (selectAccount opts cs)) \<Longrightarrow>
   \<not> isAuthTokenWriteable ev \<and> \<not> isSwitchUser ev"
  by (auto simp: selectAccount_def Let_def split: if_splits prod.splits option.splits)

lemma commit_events: "ev \<in> set (snd (commit opts a h u)) \<Longrightarrow> \<not> isSelect ev"
  by (auto simp: commit_def Let_def split: if_splits prod.splits option.splits)

lemma hostsLoop_quiet:
  "filter isSelect (snd (hostsLoop a hn un hs)) = []"
  "filter isAuthTokenWriteable (snd (hostsLoop a hn un hs)) = []"
  "filter isSwitchUser (snd (hostsLoop a hn un hs)) = []"
  by (auto simp: filter_empty_conv dest: hostsLoop_events)

lemma checkFilters_quiet:
  "filter isSelect (snd (checkFilters a hs hn un)) = []"
  "filter isAuthTokenWriteable (snd (checkFilters a hs hn un)) = []"
  "filter isSwitchUser (snd (checkFilters a hs hn un)) = []"
  by (auto simp: filter_empty_conv dest: checkFilters_events)

lemma selectAccount_quiet:
  "filter isAuthTokenWriteable (snd (selectAccount opts cs)) = []"
  "filter isSwitchUser (snd (selectAccount opts cs)) = []"
  by (auto simp: filter_empty_conv dest: selectAccount_events)

lemma commit_quiet: "filter isSelect (snd (commit opts a h u)) = []"
  by (auto simp: filter_empty_conv dest: commit_events)

text \<open>
  A run that has built a candidate has passed the checks on the flags: the way from the
  options to the choice among the candidates.
\<close>

lemma resolve_selects:
  assumes cfg: "Config opts = (a, None)"
    and cands: "hostsLoop a (Hostname opts) (User opts) (Hosts a) = (Inr cs, tr)"
    and ne: "cs \<noteq> []"
  shows "resolve opts =
           emit ([EvConfig, EvHosts]
                 @ snd (checkFilters a (Hosts a) (Hostname opts) (User opts)) @ tr)
             (selectAccount opts cs)"
proof -
  from cands ne have hosts: "length (Hosts a) \<noteq> 0"
    by (cases "Hosts a") auto
  from hostsLoop_storeOrder [OF cands] ne
  have "fst (checkFilters a (Hosts a) (Hostname opts) (User opts)) = None"
    by (simp add: storeOrder_nonempty_checkFilters)
  then obtain tr1 where
    chk: "checkFilters a (Hosts a) (Hostname opts) (User opts) = (None, tr1)"
    by (cases "checkFilters a (Hosts a) (Hostname opts) (User opts)") auto
  obtain r tr3 where sel: "selectAccount opts cs = (r, tr3)"
    by (cases "selectAccount opts cs") auto
  from cfg hosts chk cands sel show ?thesis
    by (simp add: resolve_def)
qed

text \<open>Before the write guard nothing is switched and the guard is not asked.\<close>

lemma hostsLoop_result_quiet:
  "hostsLoop a hn un hs = (r, tr) \<Longrightarrow>
   filter isSelect tr = [] \<and> filter isAuthTokenWriteable tr = [] \<and> filter isSwitchUser tr = []"
  using hostsLoop_quiet [of a hn un hs] by simp

lemma checkFilters_result_quiet:
  "checkFilters a hs hn un = (r, tr) \<Longrightarrow>
   filter isSelect tr = [] \<and> filter isAuthTokenWriteable tr = [] \<and> filter isSwitchUser tr = []"
  using checkFilters_quiet [of a hs hn un] by simp

lemma resolve_quiet:
  "filter isAuthTokenWriteable (snd (resolve opts)) = []"
  "filter isSwitchUser (snd (resolve opts)) = []"
  by (auto simp: resolve_def Let_def snd_emit selectAccount_quiet
      split: prod.splits option.splits sum.splits
      dest: hostsLoop_result_quiet checkFilters_result_quiet)

lemma switchRun_resolved:
  "resolve opts = (Inr (h, u), tr) \<Longrightarrow>
   switchRun opts = emit tr (commit opts (fst (Config opts)) h u)"
  by (simp add: switchRun_def)

lemma switchRun_ended:
  "resolve opts = (Inl out, tr) \<Longrightarrow> switchRun opts = (out, tr)"
  by (simp add: switchRun_def)

text \<open>
  A run whose choice among the candidates needs no call: what it settles on, how it goes
  on, and that the prompter is never asked.
\<close>

lemma resolved_silently:
  assumes cfg: "Config opts = (a, None)"
    and cands: "hostsLoop a (Hostname opts) (User opts) (Hosts a) = (Inr cs, tr)"
    and ne: "cs \<noteq> []"
    and sel: "selectAccount opts cs = (Inr (h, u), [])"
  shows "fst (resolve opts) = Inr (h, u)"
    and "switchRun opts = emit (snd (resolve opts)) (commit opts a h u)"
    and "chooserCalls (snd (resolve opts)) = []"
    and "chooserCalls (snd (switchRun opts)) = []"
proof -
  from resolve_selects [OF cfg cands ne] sel
  have res: "resolve opts =
      (Inr (h, u),
       [EvConfig, EvHosts] @ snd (checkFilters a (Hosts a) (Hostname opts) (User opts)) @ tr)"
    by simp
  then show "fst (resolve opts) = Inr (h, u)" by simp
  from switchRun_resolved [OF res] cfg res
  show run: "switchRun opts = emit (snd (resolve opts)) (commit opts a h u)"
    by simp
  from res cands show quiet: "chooserCalls (snd (resolve opts)) = []"
    by (simp add: chooserCalls_def checkFilters_quiet hostsLoop_result_quiet)
  then show "chooserCalls (snd (switchRun opts)) = []"
    unfolding run by (simp add: chooserCalls_def snd_emit commit_quiet)
qed

lemma resolve_continues:
  "Config opts = (a, None) \<Longrightarrow> length (Hosts a) \<noteq> 0 \<Longrightarrow>
   checkFilters a (Hosts a) (Hostname opts) (User opts) = (None, tr1) \<Longrightarrow>
   hostsLoop a (Hostname opts) (User opts) (Hosts a) = (Inr cs, tr2) \<Longrightarrow>
   resolve opts = emit ([EvConfig, EvHosts] @ tr1 @ tr2) (selectAccount opts cs)"
  by (cases "selectAccount opts cs") (simp add: resolve_def)

lemma checkFilters_cong:
  "UsersForHost a1 = UsersForHost a2 \<Longrightarrow> checkFilters a1 hs hn un = checkFilters a2 hs hn un"
  by (simp add: checkFilters_def)

lemma selectAccount_silent_eq:
  "filter isSelect (snd (selectAccount o1 cs)) = [] \<Longrightarrow>
   filter isSelect (snd (selectAccount o2 cs)) = [] \<Longrightarrow>
   selectAccount o1 cs = selectAccount o2 cs"
  by (auto simp: selectAccount_def Let_def split: if_splits prod.splits option.splits)

text \<open>The check of the user flag against the users of the host flag, when it fails.\<close>

lemma user_check_fails:
  assumes cfg: "Config opts = (a, None)"
    and host_set: "Hostname opts \<noteq> []"
    and user_set: "User opts \<noteq> []"
    and known: "Hostname opts \<in> set (Hosts a)"
    and missing: "User opts \<notin> set (fst (UsersForHost a (Hostname opts)))"
  shows "switchRun opts =
           (Failure (New (''not logged in as '' @ User opts @ '' on '' @ Hostname opts)),
            [EvConfig, EvHosts, EvUsersForHost (Hostname opts)])"
proof -
  from known have "length (Hosts a) \<noteq> 0" by auto
  with assms have "resolve opts =
      (Inl (Failure (New (''not logged in as '' @ User opts @ '' on '' @ Hostname opts))),
       [EvConfig, EvHosts, EvUsersForHost (Hostname opts)])"
    by (simp add: resolve_def checkFilters_def Let_def)
  from switchRun_ended [OF this] show ?thesis .
qed

section \<open>Pre-validation\<close>

text \<open>
  C6. Once the configuration is loaded, the run first looks at the known hosts: with no
  known host it ends with "not logged in to any hosts"; otherwise, with a host flag that
  is not a known host, it ends with "not logged in to <host>". In both cases the only
  calls made are the loading of the configuration and the listing of the hosts: no user
  is fetched, so no candidate is built, the prompter is not asked and no user is
  switched.
\<close>

theorem prevalidate_hosts:
  assumes "Config opts = (authCfg, None)"
  shows "(length (Hosts authCfg) = 0 \<longrightarrow>
            switchRun opts =
              (Failure (New ''not logged in to any hosts''), [EvConfig, EvHosts]))
       \<and> (length (Hosts authCfg) \<noteq> 0 \<and> Hostname opts \<noteq> []
            \<and> Hostname opts \<notin> set (Hosts authCfg) \<longrightarrow>
            switchRun opts =
              (Failure (New (''not logged in to '' @ Hostname opts)), [EvConfig, EvHosts]))
       \<and> (length (Hosts authCfg) = 0
            \<or> (Hostname opts \<noteq> [] \<and> Hostname opts \<notin> set (Hosts authCfg)) \<longrightarrow>
            chooserCalls (snd (switchRun opts)) = []
            \<and> registerCalls (snd (switchRun opts)) = [])"
  using assms
  by (auto simp: switchRun_def resolve_def checkFilters_def chooserCalls_def
      registerCalls_def Let_def)

theorem prevalidate_hosts_witness:
  "switchRun (exampleOpts\<lparr>Config := (exampleStore\<lparr>Hosts := []\<rparr>, None)\<rparr>) =
     (Failure (New ''not logged in to any hosts''), [EvConfig, EvHosts])
   \<and> switchRun (exampleOpts\<lparr>Hostname := ''example.com''\<rparr>) =
     (Failure (New ''not logged in to example.com''), [EvConfig, EvHosts])
   \<and> chooserCalls (snd (switchRun (exampleOpts\<lparr>Hostname := ''example.com''\<rparr>))) = []
   \<and> registerCalls (snd (switchRun (exampleOpts\<lparr>Hostname := ''example.com''\<rparr>))) = []"
  using prevalidate_hosts [of "exampleOpts\<lparr>Config := (exampleStore\<lparr>Hosts := []\<rparr>, None)\<rparr>"
                              "exampleStore\<lparr>Hosts := []\<rparr>"]
    prevalidate_hosts [of "exampleOpts\<lparr>Hostname := ''example.com''\<rparr>" exampleStore]
  by (simp add: exampleOpts_def exampleStore_def chooserCalls_def registerCalls_def)

section \<open>Disambiguation\<close>

text \<open>
  C1. When the candidates are more than one and exactly one of them has its active flag
  false (the candidates whose flag is false are the one candidate \<open>c\<close>), the run settles
  on that candidate, goes on to the write guard with its host and user, and never asks
  the prompter. A lone candidate is settled on whatever its active flag, so the shortcut
  only ever decides among two candidates or more.
\<close>

theorem single_inactive_shortcut:
  assumes cfg: "Config opts = (authCfg, None)"
    and cands: "hostsLoop authCfg (Hostname opts) (User opts) (Hosts authCfg) = (Inr cands, tr)"
  shows "(1 < length cands \<and> filter (\<lambda>x. \<not> active x) cands = [c] \<longrightarrow>
            fst (resolve opts) = Inr (host c, user c)
            \<and> switchRun opts =
                emit (snd (resolve opts)) (commit opts authCfg (host c) (user c))
            \<and> chooserCalls (snd (switchRun opts)) = [])
       \<and> (cands = [c] \<longrightarrow>
            fst (resolve opts) = Inr (host c, user c)
            \<and> chooserCalls (snd (switchRun opts)) = [])"
proof (intro conjI impI)
  assume h: "1 < length cands \<and> filter (\<lambda>x. \<not> active x) cands = [c]"
  then have ne: "cands \<noteq> []" by auto
  from h ne have sel: "selectAccount opts cands = (Inr (host c, user c), [])"
    by (simp add: selectAccount_def Let_def inactiveOptions_filter)
  note r = resolved_silently [OF cfg cands ne sel]
  from r(1) show "fst (resolve opts) = Inr (host c, user c)" .
  from r(2) show "switchRun opts =
      emit (snd (resolve opts)) (commit opts authCfg (host c) (user c))" .
  from r(4) show "chooserCalls (snd (switchRun opts)) = []" .
next
  assume h: "cands = [c]"
  then have ne: "cands \<noteq> []" by simp
  from h have sel: "selectAccount opts cands = (Inr (host c, user c), [])"
    by (simp add: selectAccount_def Let_def)
  note r = resolved_silently [OF cfg cands ne sel]
  from r(1) show "fst (resolve opts) = Inr (host c, user c)" .
  from r(4) show "chooserCalls (snd (switchRun opts)) = []" .
qed

theorem single_inactive_shortcut_witness:
  "fst (resolve (exampleOpts\<lparr>Hostname := ''github.com''\<rparr>)) = Inr (''github.com'', ''bob'')
   \<and> chooserCalls (snd (switchRun (exampleOpts\<lparr>Hostname := ''github.com''\<rparr>))) = []
   \<and> fst (resolve (exampleOpts\<lparr>Config := (secondActiveStore, None),
                                  Hostname := ''github.com''\<rparr>))
       = Inr (''github.com'', ''alice'')
   \<and> fst (resolve (exampleOpts\<lparr>Hostname := ''ghe.io''\<rparr>)) = Inr (''ghe.io'', ''alice'')"
proof -
  let ?two = "exampleOpts\<lparr>Hostname := ''github.com''\<rparr>"
  let ?swapped = "exampleOpts\<lparr>Config := (secondActiveStore, None), Hostname := ''github.com''\<rparr>"
  let ?one = "exampleOpts\<lparr>Hostname := ''ghe.io''\<rparr>"
  let ?alice = "\<lparr>host = ''github.com'', user = ''alice'', active = True\<rparr>"
  let ?bob = "\<lparr>host = ''github.com'', user = ''bob'', active = False\<rparr>"
  let ?alice' = "\<lparr>host = ''github.com'', user = ''alice'', active = False\<rparr>"
  let ?bob' = "\<lparr>host = ''github.com'', user = ''bob'', active = True\<rparr>"
  let ?lone = "\<lparr>host = ''ghe.io'', user = ''alice'', active = True\<rparr>"
  have cfg2: "Config ?two = (exampleStore, None)" and cfg1: "Config ?one = (exampleStore, None)"
    and cfg3: "Config ?swapped = (secondActiveStore, None)"
    by (simp_all add: exampleOpts_def)
  have cands2: "hostsLoop exampleStore (Hostname ?two) (User ?two) (Hosts exampleStore) =
      (Inr [?alice, ?bob], [EvUser ''github.com'', EvUsersForHost ''github.com''])"
    by (simp add: exampleOpts_def exampleStore_def)
  have cands3: "hostsLoop secondActiveStore (Hostname ?swapped) (User ?swapped)
        (Hosts secondActiveStore) =
      (Inr [?alice', ?bob'], [EvUser ''github.com'', EvUsersForHost ''github.com''])"
    by (simp add: exampleOpts_def secondActiveStore_def exampleStore_def)
  have cands1: "hostsLoop exampleStore (Hostname ?one) (User ?one) (Hosts exampleStore) =
      (Inr [?lone], [EvUser ''ghe.io'', EvUsersForHost ''ghe.io''])"
    by (simp add: exampleOpts_def exampleStore_def)
  have two: "1 < length [?alice, ?bob] \<and> filter (\<lambda>x. \<not> active x) [?alice, ?bob] = [?bob]"
    by simp
  have swapped: "1 < length [?alice', ?bob']
      \<and> filter (\<lambda>x. \<not> active x) [?alice', ?bob'] = [?alice']"
    by simp
  from single_inactive_shortcut [OF cfg2 cands2, of ?bob] two
  have "fst (resolve ?two) = Inr (host ?bob, user ?bob)
        \<and> chooserCalls (snd (switchRun ?two)) = []"
    by blast
  moreover from single_inactive_shortcut [OF cfg3 cands3, of ?alice'] swapped
  have "fst (resolve ?swapped) = Inr (host ?alice', user ?alice')"
    by blast
  moreover from single_inactive_shortcut [OF cfg1 cands1, of ?lone]
  have "fst (resolve ?one) = Inr (host ?lone, user ?lone)"
    by blast
  ultimately show ?thesis by simp
qed

text \<open>
  C2. When there is exactly one candidate, the run settles on it whatever its active
  flag. If the write guard lets the host through, \<^verbatim>\<open>SwitchUser\<close> is called once, with
  that host and user, also when the account is the active one already, and the run ends
  as that call does: with success when it returns no error.
\<close>

theorem single_candidate_switch:
  assumes cfg: "Config opts = (authCfg, None)"
    and cands: "hostsLoop authCfg (Hostname opts) (User opts) (Hosts authCfg) = (Inr [c], tr)"
    and guard: "AuthTokenWriteable authCfg (host c) = (src, True)"
  shows "fst (resolve opts) = Inr (host c, user c)
       \<and> chooserCalls (snd (switchRun opts)) = []
       \<and> registerCalls (snd (switchRun opts)) = [EvSwitchUser (host c) (user c)]
       \<and> fst (switchRun opts) =
           (case SwitchUser authCfg (host c) (user c) of
              None \<Rightarrow> Success | Some err \<Rightarrow> Failure err)"
proof -
  have sel: "selectAccount opts [c] = (Inr (host c, user c), [])"
    by (simp add: selectAccount_def Let_def)
  note r = resolved_silently [OF cfg cands _ sel]
  have reg: "registerCalls (snd (commit opts authCfg (host c) (user c)))
               = [EvSwitchUser (host c) (user c)]"
    using guard by (simp add: commit_def registerCalls_def split: option.splits)
  have out: "fst (commit opts authCfg (host c) (user c)) =
      (case SwitchUser authCfg (host c) (user c) of None \<Rightarrow> Success | Some err \<Rightarrow> Failure err)"
    using guard by (simp add: commit_def split: option.splits)
  from r(1) have "fst (resolve opts) = Inr (host c, user c)" by simp
  moreover from r(4) have "chooserCalls (snd (switchRun opts)) = []" by simp
  moreover have "registerCalls (snd (switchRun opts)) = [EvSwitchUser (host c) (user c)]"
    using r(2) reg resolve_quiet(2) [of opts]
    by (simp add: registerCalls_def snd_emit)
  moreover have "fst (switchRun opts) =
      (case SwitchUser authCfg (host c) (user c) of None \<Rightarrow> Success | Some err \<Rightarrow> Failure err)"
    using r(2) out by (simp add: fst_emit)
  ultimately show ?thesis by blast
qed

theorem single_candidate_switch_witness:
  "hostsLoop exampleStore ''ghe.io'' [] (Hosts exampleStore) =
     (Inr [\<lparr>host = ''ghe.io'', user = ''alice'', active = True\<rparr>],
      [EvUser ''ghe.io'', EvUsersForHost ''ghe.io''])
   \<and> fst (resolve (exampleOpts\<lparr>Hostname := ''ghe.io''\<rparr>)) = Inr (''ghe.io'', ''alice'')
   \<and> registerCalls (snd (switchRun (exampleOpts\<lparr>Hostname := ''ghe.io''\<rparr>)))
       = [EvSwitchUser ''ghe.io'' ''alice'']
   \<and> fst (switchRun (exampleOpts\<lparr>Hostname := ''ghe.io''\<rparr>)) = Success"
proof -
  let ?one = "exampleOpts\<lparr>Hostname := ''ghe.io''\<rparr>"
  let ?lone = "\<lparr>host = ''ghe.io'', user = ''alice'', active = True\<rparr>"
  have cfg: "Config ?one = (exampleStore, None)"
    by (simp add: exampleOpts_def)
  have cands: "hostsLoop exampleStore (Hostname ?one) (User ?one) (Hosts exampleStore) =
      (Inr [?lone], [EvUser ''ghe.io'', EvUsersForHost ''ghe.io''])"
    by (simp add: exampleOpts_def exampleStore_def)
  have guard: "AuthTokenWriteable exampleStore (host ?lone) = ([], True)"
    by (simp add: exampleStore_def)
  have switch: "SwitchUser exampleStore (host ?lone) (user ?lone) = None"
    by (simp add: exampleStore_def)
  from single_candidate_switch [OF cfg cands guard] switch cands
  show ?thesis by (simp add: exampleOpts_def)
qed

text \<open>
  C4. When the candidates are more than one and those whose active flag is false are
  none or several:
  without a terminal to prompt on, the run ends with the "unable to determine" error and
  the prompter is not asked; with one, the prompter is asked once, with one option for
  each candidate, in the order of the candidates, each reading "user (host)" followed by
  " - active" exactly when the candidate is active, and when it answers with an index
  of a candidate the run settles on that candidate and goes on to the write guard.
\<close>

theorem ambiguous_selection:
  fixes label :: "hostUser \<Rightarrow> string"
  defines "label \<equiv> \<lambda>c. user c @ '' ('' @ host c @ '')'' @ (if active c then '' - active'' else [])"
  assumes cfg: "Config opts = (authCfg, None)"
    and cands: "hostsLoop authCfg (Hostname opts) (User opts) (Hosts authCfg) = (Inr cands, tr)"
    and many: "1 < length cands"
    and amb: "length (filter (\<lambda>x. \<not> active x) cands) \<noteq> 1"
  shows "(\<not> CanPrompt opts \<longrightarrow>
            fst (switchRun opts) =
              Failure (New (''unable to determine which user account to switch to, ''
                            @ ''please specify `--hostname` and `--user`''))
            \<and> chooserCalls (snd (switchRun opts)) = [])
       \<and> (CanPrompt opts \<longrightarrow>
            chooserCalls (snd (resolve opts)) =
              [EvSelect ''What account do you want to switch to?'' [] (map label cands)]
            \<and> (\<forall>i. Select opts ''What account do you want to switch to?'' [] (map label cands)
                       = (i, None)
                     \<and> 0 \<le> i \<and> i < int (length cands) \<longrightarrow>
                   fst (resolve opts) = Inr (host (cands ! nat i), user (cands ! nat i))
                   \<and> switchRun opts =
                       emit (snd (resolve opts))
                         (commit opts authCfg (host (cands ! nat i)) (user (cands ! nat i)))))"
proof -
  from many have ne: "cands \<noteq> []" by auto
  have lab: "promptFor = label"
    by (rule ext) (simp add: promptFor_def label_def Let_def)
  let ?pre = "[EvConfig, EvHosts]
      @ snd (checkFilters authCfg (Hosts authCfg) (Hostname opts) (User opts)) @ tr"
  note res = resolve_selects [OF cfg cands ne]
  have pre: "chooserCalls ?pre = []"
    using cands by (simp add: chooserCalls_def checkFilters_quiet hostsLoop_result_quiet)
  have blind: "fst (switchRun opts) =
        Failure (New (''unable to determine which user account to switch to, ''
                      @ ''please specify `--hostname` and `--user`''))
      \<and> chooserCalls (snd (switchRun opts)) = []" if "\<not> CanPrompt opts"
  proof -
    from that many amb ne have "selectAccount opts cands =
        (Inl (Failure (New (''unable to determine which user account to switch to, ''
                            @ ''please specify `--hostname` and `--user`''))), [EvCanPrompt])"
      by (simp add: selectAccount_def Let_def inactiveOptions_filter)
    with res have "resolve opts =
        (Inl (Failure (New (''unable to determine which user account to switch to, ''
                            @ ''please specify `--hostname` and `--user`''))),
         ?pre @ [EvCanPrompt])"
      by simp
    from switchRun_ended [OF this] pre show ?thesis
      by (simp add: chooserCalls_def)
  qed
  have asked: "chooserCalls (snd (resolve opts)) =
      [EvSelect ''What account do you want to switch to?'' [] (map label cands)]"
    if "CanPrompt opts"
  proof -
    from that many amb ne have "snd (selectAccount opts cands) =
        [EvCanPrompt, EvSelect ''What account do you want to switch to?'' [] (map label cands)]"
      by (simp add: selectAccount_def Let_def lab inactiveOptions_filter
          split: prod.splits option.splits)
    with res pre show ?thesis
      by (simp add: snd_emit chooserCalls_def)
  qed
  have chosen: "fst (resolve opts) = Inr (host (cands ! nat i), user (cands ! nat i))
      \<and> switchRun opts =
          emit (snd (resolve opts))
            (commit opts authCfg (host (cands ! nat i)) (user (cands ! nat i)))"
    if "CanPrompt opts"
      and "Select opts ''What account do you want to switch to?'' [] (map label cands) = (i, None)
           \<and> 0 \<le> i \<and> i < int (length cands)" for i
  proof -
    from that many amb ne have "fst (selectAccount opts cands) =
        Inr (host (cands ! nat i), user (cands ! nat i))"
      by (simp add: selectAccount_def Let_def lab inactiveOptions_filter)
    with res have f: "fst (resolve opts) = Inr (host (cands ! nat i), user (cands ! nat i))"
      by (simp add: fst_emit)
    then have r: "resolve opts =
        (Inr (host (cands ! nat i), user (cands ! nat i)), snd (resolve opts))"
      by (cases "resolve opts") simp
    from switchRun_resolved [OF r] cfg have "switchRun opts =
        emit (snd (resolve opts))
          (commit opts authCfg (host (cands ! nat i)) (user (cands ! nat i)))"
      by simp
    with f show ?thesis by blast
  qed
  from blind asked chosen show ?thesis by blast
qed

theorem ambiguous_selection_witness:
  "chooserCalls (snd (resolve (exampleOpts\<lparr>Config := (crowdedStore, None),
                                            Hostname := ''github.com''\<rparr>))) =
     [EvSelect ''What account do you want to switch to?'' []
        [''alice (github.com) - active'', ''bob (github.com)'', ''carol (github.com)'']]
   \<and> fst (resolve (exampleOpts\<lparr>Config := (crowdedStore, None), Hostname := ''github.com''\<rparr>))
       = Inr (''github.com'', ''bob'')
   \<and> fst (switchRun (exampleOpts\<lparr>Config := (crowdedStore, None), Hostname := ''github.com'',
                                  CanPrompt := False\<rparr>)) =
       Failure (New (''unable to determine which user account to switch to, ''
                     @ ''please specify `--hostname` and `--user`''))
   \<and> chooserCalls (snd (switchRun (exampleOpts\<lparr>Config := (crowdedStore, None),
                                                Hostname := ''github.com'',
                                                CanPrompt := False\<rparr>))) = []"
proof -
  let ?seen = "exampleOpts\<lparr>Config := (crowdedStore, None), Hostname := ''github.com''\<rparr>"
  let ?blind = "exampleOpts\<lparr>Config := (crowdedStore, None), Hostname := ''github.com'',
                             CanPrompt := False\<rparr>"
  let ?cands = "[\<lparr>host = ''github.com'', user = ''alice'', active = True\<rparr>,
                 \<lparr>host = ''github.com'', user = ''bob'', active = False\<rparr>,
                 \<lparr>host = ''github.com'', user = ''carol'', active = False\<rparr>]"
  let ?tr = "[EvUser ''github.com'', EvUsersForHost ''github.com'']"
  have cfg: "Config ?seen = (crowdedStore, None)" "Config ?blind = (crowdedStore, None)"
    by (simp_all add: exampleOpts_def)
  have cands: "hostsLoop crowdedStore (Hostname ?seen) (User ?seen) (Hosts crowdedStore)
                 = (Inr ?cands, ?tr)"
    "hostsLoop crowdedStore (Hostname ?blind) (User ?blind) (Hosts crowdedStore)
                 = (Inr ?cands, ?tr)"
    by (simp_all add: exampleOpts_def crowdedStore_def exampleStore_def)
  have many: "1 < length ?cands"
    and amb: "length (filter (\<lambda>x. \<not> active x) ?cands) \<noteq> 1"
    by simp_all
  have prompt: "CanPrompt ?seen" "\<not> CanPrompt ?blind"
    by (simp_all add: exampleOpts_def)
  have answer: "Select ?seen ''What account do you want to switch to?'' []
      (map (\<lambda>c. user c @ '' ('' @ host c @ '')'' @ (if active c then '' - active'' else []))
           ?cands) = (1, None) \<and> (0::int) \<le> 1 \<and> 1 < int (length ?cands)"
    by (simp add: exampleOpts_def)
  note seen = ambiguous_selection [OF cfg(1) cands(1) many amb, THEN conjunct2, rule_format,
      OF prompt(1)]
  from seen [THEN conjunct1]
  have "chooserCalls (snd (resolve ?seen)) =
      [EvSelect ''What account do you want to switch to?'' []
         [''alice (github.com) - active'', ''bob (github.com)'', ''carol (github.com)'']]"
    by simp
  moreover from seen [THEN conjunct2, rule_format, OF answer]
  have "fst (resolve ?seen) = Inr (''github.com'', ''bob'')"
    by simp
  moreover from ambiguous_selection [OF cfg(2) cands(2) many amb, THEN conjunct1, rule_format,
      OF prompt(2)]
  have "fst (switchRun ?blind) =
        Failure (New (''unable to determine which user account to switch to, ''
                      @ ''please specify `--hostname` and `--user`''))
      \<and> chooserCalls (snd (switchRun ?blind)) = []" .
  ultimately show ?thesis by blast
qed

section \<open>The candidate set\<close>

text \<open>
  C3. The candidates built by the loop over the hosts all carry the host flag when it is
  set and the user flag when it is set, each is active exactly when its user is the
  active user of its host, and they are the entries of the store that pass the filters,
  in the order of the hosts and then of each host's users.
\<close>

theorem candidate_set_invariant:
  assumes "hostsLoop authCfg hostname username knownHosts = (Inr cands, tr)"
  shows "(hostname \<noteq> [] \<longrightarrow> (\<forall>c \<in> set cands. host c = hostname))
       \<and> (username \<noteq> [] \<longrightarrow> (\<forall>c \<in> set cands. user c = username))
       \<and> (\<forall>c \<in> set cands. active c = (user c = fst (AuthUser authCfg (host c))))
       \<and> cands = storeOrder authCfg hostname username knownHosts"
proof -
  from hostsLoop_storeOrder [OF assms]
  have eq: "cands = storeOrder authCfg hostname username knownHosts" .
  have "hostname \<noteq> [] \<longrightarrow> (\<forall>c \<in> set cands. host c = hostname)"
    unfolding eq by (auto simp: storeOrder_def)
  moreover have "username \<noteq> [] \<longrightarrow> (\<forall>c \<in> set cands. user c = username)"
    unfolding eq by (auto simp: storeOrder_def)
  moreover have "\<forall>c \<in> set cands. active c = (user c = fst (AuthUser authCfg (host c)))"
    unfolding eq by (auto simp: storeOrder_def)
  ultimately show ?thesis using eq by blast
qed

theorem candidate_set_invariant_witness:
  "hostsLoop exampleStore [] [] (Hosts exampleStore) =
     (Inr [\<lparr>host = ''github.com'', user = ''alice'', active = True\<rparr>,
           \<lparr>host = ''github.com'', user = ''bob'', active = False\<rparr>,
           \<lparr>host = ''ghe.io'', user = ''alice'', active = True\<rparr>],
      [EvUser ''github.com'', EvUsersForHost ''github.com'',
       EvUser ''ghe.io'', EvUsersForHost ''ghe.io''])
   \<and> storeOrder exampleStore [] [] (Hosts exampleStore) =
       [\<lparr>host = ''github.com'', user = ''alice'', active = True\<rparr>,
        \<lparr>host = ''github.com'', user = ''bob'', active = False\<rparr>,
        \<lparr>host = ''ghe.io'', user = ''alice'', active = True\<rparr>]
   \<and> hostsLoop exampleStore ''github.com'' ''bob'' (Hosts exampleStore) =
       (Inr [\<lparr>host = ''github.com'', user = ''bob'', active = False\<rparr>],
        [EvUser ''github.com'', EvUsersForHost ''github.com''])
   \<and> ''github.com'' \<noteq> [] \<and> ''bob'' \<noteq> []
   \<and> host \<lparr>host = ''github.com'', user = ''bob'', active = False\<rparr> = ''github.com''
   \<and> user \<lparr>host = ''github.com'', user = ''bob'', active = False\<rparr> = ''bob''
   \<and> active \<lparr>host = ''github.com'', user = ''bob'', active = False\<rparr> =
       (''bob'' = fst (AuthUser exampleStore ''github.com''))"
proof -
  let ?all = "[\<lparr>host = ''github.com'', user = ''alice'', active = True\<rparr>,
               \<lparr>host = ''github.com'', user = ''bob'', active = False\<rparr>,
               \<lparr>host = ''ghe.io'', user = ''alice'', active = True\<rparr>]"
  let ?bob = "[\<lparr>host = ''github.com'', user = ''bob'', active = False\<rparr>]"
  have every: "hostsLoop exampleStore [] [] (Hosts exampleStore) =
      (Inr ?all, [EvUser ''github.com'', EvUsersForHost ''github.com'',
                  EvUser ''ghe.io'', EvUsersForHost ''ghe.io''])"
    by (simp add: exampleStore_def)
  have filtered: "hostsLoop exampleStore ''github.com'' ''bob'' (Hosts exampleStore) =
      (Inr ?bob, [EvUser ''github.com'', EvUsersForHost ''github.com''])"
    by (simp add: exampleStore_def)
  have set: "''github.com'' \<noteq> [] \<and> ''bob'' \<noteq> []" by simp
  from candidate_set_invariant [OF every, THEN conjunct2, THEN conjunct2, THEN conjunct2]
  have "storeOrder exampleStore [] [] (Hosts exampleStore) = ?all" by (rule sym)
  moreover from candidate_set_invariant [OF filtered] set
  have "\<forall>c \<in> set ?bob. host c = ''github.com'' \<and> user c = ''bob''
          \<and> active c = (user c = fst (AuthUser exampleStore (host c)))"
    by blast
  then have "host (hd ?bob) = ''github.com'' \<and> user (hd ?bob) = ''bob''
      \<and> active (hd ?bob) = (''bob'' = fst (AuthUser exampleStore ''github.com''))"
    by simp
  ultimately show ?thesis using every filtered set by simp
qed

section \<open>The write guard\<close>

text \<open>
  C5. Whatever host and user the run has settled on, when the write guard reports that
  the token of that host is not writeable the run ends with the silent error, after
  writing two lines to the error stream, the first of which names the environment
  variable the guard reported; \<^verbatim>\<open>SwitchUser\<close> is never called.
\<close>

theorem write_guard_blocks:
  assumes res: "resolve opts = (Inr (h, u), tr)"
    and guard: "AuthTokenWriteable (fst (Config opts)) h = (src, False)"
  shows "switchRun opts =
           (Failure SilentError,
            tr @ [EvAuthTokenWriteable h,
                  EvErrOut (''The value of the '' @ src
                            @ '' environment variable is being used for authentication.\<newline>''),
                  EvErrOut (''To have GitHub CLI manage credentials instead, ''
                            @ ''first clear the value from the environment.\<newline>'')])
       \<and> registerCalls (snd (switchRun opts)) = []"
proof -
  from switchRun_resolved [OF res] guard
  have run: "switchRun opts =
      (Failure SilentError,
       tr @ [EvAuthTokenWriteable h,
             EvErrOut (''The value of the '' @ src
                       @ '' environment variable is being used for authentication.\<newline>''),
             EvErrOut (''To have GitHub CLI manage credentials instead, ''
                       @ ''first clear the value from the environment.\<newline>'')])"
    by (simp add: commit_def)
  from resolve_quiet(2) [of opts] res have "filter isSwitchUser tr = []" by simp
  with run show ?thesis by (simp add: registerCalls_def)
qed

theorem write_guard_blocks_witness:
  "resolve (exampleOpts\<lparr>Config := (overriddenStore, None), Hostname := ''ghe.io''\<rparr>) =
     (Inr (''ghe.io'', ''alice''),
      [EvConfig, EvHosts, EvUser ''ghe.io'', EvUsersForHost ''ghe.io''])
   \<and> switchRun (exampleOpts\<lparr>Config := (overriddenStore, None), Hostname := ''ghe.io''\<rparr>) =
     (Failure SilentError,
      [EvConfig, EvHosts, EvUser ''ghe.io'', EvUsersForHost ''ghe.io'',
       EvAuthTokenWriteable ''ghe.io'',
       EvErrOut (''The value of the GH_TOKEN environment variable ''
                 @ ''is being used for authentication.\<newline>''),
       EvErrOut (''To have GitHub CLI manage credentials instead, ''
                 @ ''first clear the value from the environment.\<newline>'')])
   \<and> registerCalls (snd (switchRun (exampleOpts\<lparr>Config := (overriddenStore, None),
                                                 Hostname := ''ghe.io''\<rparr>))) = []"
proof -
  let ?o = "exampleOpts\<lparr>Config := (overriddenStore, None), Hostname := ''ghe.io''\<rparr>"
  let ?lone = "\<lparr>host = ''ghe.io'', user = ''alice'', active = True\<rparr>"
  have cfg: "Config ?o = (overriddenStore, None)"
    and ne: "length (Hosts overriddenStore) \<noteq> 0"
    and chk: "checkFilters overriddenStore (Hosts overriddenStore) (Hostname ?o) (User ?o)
                = (None, [])"
    and loop: "hostsLoop overriddenStore (Hostname ?o) (User ?o) (Hosts overriddenStore)
                = (Inr [?lone], [EvUser ''ghe.io'', EvUsersForHost ''ghe.io''])"
    by (simp_all add: exampleOpts_def overriddenStore_def exampleStore_def checkFilters_def)
  have sel: "selectAccount ?o [?lone] = (Inr (''ghe.io'', ''alice''), [])"
    by (simp add: selectAccount_def)
  from resolve_continues [OF cfg ne chk loop] sel
  have res: "resolve ?o =
      (Inr (''ghe.io'', ''alice''),
       [EvConfig, EvHosts, EvUser ''ghe.io'', EvUsersForHost ''ghe.io''])"
    by simp
  have guard: "AuthTokenWriteable (fst (Config ?o)) ''ghe.io'' = (''GH_TOKEN'', False)"
    by (simp add: exampleOpts_def overriddenStore_def)
  from write_guard_blocks [OF res guard] res show ?thesis by (simp add: registerCalls_def)
qed

section \<open>The user flag on the host flag\<close>




section \<open>Failing fetches\<close>

text \<open>
  C8. Take a known host that the loop does not skip, all hosts before it having been
  fetched without error. If the fetch of its active user fails, or that one succeeds and
  the fetch of its users fails, the run ends with that very error, the failing fetch is
  the last call it makes, and the prompter, the write guard and \<^verbatim>\<open>SwitchUser\<close> are
  never called.
\<close>

theorem fetch_error_aborts:
  assumes cfg: "Config opts = (authCfg, None)"
    and hosts: "Hosts authCfg = pre @ h # post"
    and checked: "fst (checkFilters authCfg (Hosts authCfg) (Hostname opts) (User opts)) = None"
    and before: "hostsLoop authCfg (Hostname opts) (User opts) pre = (Inr cs, tr)"
    and iterated: "Hostname opts = [] \<or> h = Hostname opts"
    and fails: "snd (AuthUser authCfg h) = Some err
                \<or> (snd (AuthUser authCfg h) = None \<and> snd (UsersForHost authCfg h) = Some err)"
  shows "switchRun opts =
           (Failure err,
            [EvConfig, EvHosts]
            @ snd (checkFilters authCfg (Hosts authCfg) (Hostname opts) (User opts)) @ tr
            @ (if snd (AuthUser authCfg h) = None then [EvUser h, EvUsersForHost h]
               else [EvUser h]))
       \<and> chooserCalls (snd (switchRun opts)) = []
       \<and> writeGuardCalls (snd (switchRun opts)) = []
       \<and> registerCalls (snd (switchRun opts)) = []"
proof -
  let ?last = "if snd (AuthUser authCfg h) = None then [EvUser h, EvUsersForHost h]
               else [EvUser h]"
  let ?chk = "checkFilters authCfg (Hosts authCfg) (Hostname opts) (User opts)"
  from iterated fails
  have here: "hostsLoop authCfg (Hostname opts) (User opts) (h # post) = (Inl err, ?last)"
    by (cases "AuthUser authCfg h"; cases "UsersForHost authCfg h") auto
  from before here
  have loop: "hostsLoop authCfg (Hostname opts) (User opts) (Hosts authCfg)
                = (Inl err, tr @ ?last)"
    unfolding hosts hostsLoop_append by simp
  from checked obtain tr1 where chk: "?chk = (None, tr1)"
    by (cases ?chk) auto
  from hosts have "length (Hosts authCfg) \<noteq> 0" by simp
  with cfg chk loop
  have "resolve opts = (Inl (Failure err), [EvConfig, EvHosts] @ tr1 @ tr @ ?last)"
    by (simp add: resolve_def)
  from switchRun_ended [OF this] chk
  have run: "switchRun opts = (Failure err, [EvConfig, EvHosts] @ snd ?chk @ tr @ ?last)"
    by simp
  have "filter isSelect (snd (switchRun opts)) = []"
    and "filter isAuthTokenWriteable (snd (switchRun opts)) = []"
    and "filter isSwitchUser (snd (switchRun opts)) = []"
    unfolding run using hostsLoop_result_quiet [OF before]
    by (simp_all add: checkFilters_quiet)
  with run show ?thesis
    by (simp add: chooserCalls_def writeGuardCalls_def registerCalls_def)
qed

theorem fetch_error_aborts_witness:
  "switchRun (exampleOpts\<lparr>Config := (brokenActiveStore, None)\<rparr>) =
     (Failure (New ''cannot read active user''),
      [EvConfig, EvHosts, EvUser ''github.com'', EvUsersForHost ''github.com'',
       EvUser ''ghe.io''])
   \<and> switchRun (exampleOpts\<lparr>Config := (brokenUsersStore, None)\<rparr>) =
     (Failure (New ''cannot read users''),
      [EvConfig, EvHosts, EvUser ''github.com'', EvUsersForHost ''github.com'',
       EvUser ''ghe.io'', EvUsersForHost ''ghe.io''])
   \<and> writeGuardCalls (snd (switchRun (exampleOpts\<lparr>Config := (brokenUsersStore, None)\<rparr>))) = []"
proof -
  let ?a = "exampleOpts\<lparr>Config := (brokenActiveStore, None)\<rparr>"
  let ?u = "exampleOpts\<lparr>Config := (brokenUsersStore, None)\<rparr>"
  let ?cs = "[\<lparr>host = ''github.com'', user = ''alice'', active = True\<rparr>,
              \<lparr>host = ''github.com'', user = ''bob'', active = False\<rparr>]"
  let ?tr = "[EvUser ''github.com'', EvUsersForHost ''github.com'']"
  have cfg: "Config ?a = (brokenActiveStore, None)" "Config ?u = (brokenUsersStore, None)"
    by (simp_all add: exampleOpts_def)
  have hosts: "Hosts brokenActiveStore = [''github.com''] @ ''ghe.io'' # []"
    "Hosts brokenUsersStore = [''github.com''] @ ''ghe.io'' # []"
    by (simp_all add: brokenActiveStore_def brokenUsersStore_def exampleStore_def)
  have checked:
    "fst (checkFilters brokenActiveStore (Hosts brokenActiveStore) (Hostname ?a) (User ?a)) = None"
    "fst (checkFilters brokenUsersStore (Hosts brokenUsersStore) (Hostname ?u) (User ?u)) = None"
    by (simp_all add: checkFilters_def exampleOpts_def)
  have before:
    "hostsLoop brokenActiveStore (Hostname ?a) (User ?a) [''github.com''] = (Inr ?cs, ?tr)"
    "hostsLoop brokenUsersStore (Hostname ?u) (User ?u) [''github.com''] = (Inr ?cs, ?tr)"
    by (simp_all add: exampleOpts_def brokenActiveStore_def brokenUsersStore_def exampleStore_def)
  have iterated: "Hostname ?a = [] \<or> ''ghe.io'' = Hostname ?a"
    "Hostname ?u = [] \<or> ''ghe.io'' = Hostname ?u"
    by (simp_all add: exampleOpts_def)
  have fails:
    "snd (AuthUser brokenActiveStore ''ghe.io'') = Some (New ''cannot read active user'')
     \<or> (snd (AuthUser brokenActiveStore ''ghe.io'') = None
         \<and> snd (UsersForHost brokenActiveStore ''ghe.io'') = Some (New ''cannot read active user''))"
    "snd (AuthUser brokenUsersStore ''ghe.io'') = Some (New ''cannot read users'')
     \<or> (snd (AuthUser brokenUsersStore ''ghe.io'') = None
         \<and> snd (UsersForHost brokenUsersStore ''ghe.io'') = Some (New ''cannot read users''))"
    by (simp_all add: brokenActiveStore_def brokenUsersStore_def exampleStore_def)
  have quiet:
    "snd (checkFilters brokenActiveStore (Hosts brokenActiveStore) (Hostname ?a) (User ?a)) = []"
    "snd (checkFilters brokenUsersStore (Hosts brokenUsersStore) (Hostname ?u) (User ?u)) = []"
    by (simp_all add: checkFilters_def exampleOpts_def)
  have last: "snd (AuthUser brokenActiveStore ''ghe.io'') \<noteq> None"
    "snd (AuthUser brokenUsersStore ''ghe.io'') = None"
    by (simp_all add: brokenActiveStore_def brokenUsersStore_def exampleStore_def)
  from fetch_error_aborts [OF cfg(1) hosts(1) checked(1) before(1) iterated(1) fails(1)]
    quiet(1) last(1)
  have "switchRun ?a =
     (Failure (New ''cannot read active user''),
      [EvConfig, EvHosts, EvUser ''github.com'', EvUsersForHost ''github.com'',
       EvUser ''ghe.io''])"
    by simp
  moreover
  from fetch_error_aborts [OF cfg(2) hosts(2) checked(2) before(2) iterated(2) fails(2)]
    quiet(2) last(2)
  have "switchRun ?u =
     (Failure (New ''cannot read users''),
      [EvConfig, EvHosts, EvUser ''github.com'', EvUsersForHost ''github.com'',
       EvUser ''ghe.io'', EvUsersForHost ''ghe.io''])
     \<and> writeGuardCalls (snd (switchRun ?u)) = []"
    by (simp add: writeGuardCalls_def)
  ultimately show ?thesis by blast
qed

section \<open>Determinism\<close>

text \<open>
  C9. Two runs on options that agree on the store they read (the error of loading the
  configuration, the hosts, the users of every host, the active user of every host) and
  on the two flags, and may differ in everything else (the prompter, the terminal, the
  write guard, the switch), neither of which asks the prompter, settle on the same host
  and user or end with the same error, after the same calls.
\<close>

theorem resolution_deterministic:
  assumes err: "snd (Config o1) = snd (Config o2)"
    and hosts: "Hosts (fst (Config o1)) = Hosts (fst (Config o2))"
    and users: "UsersForHost (fst (Config o1)) = UsersForHost (fst (Config o2))"
    and actives: "AuthUser (fst (Config o1)) = AuthUser (fst (Config o2))"
    and hostname: "Hostname o1 = Hostname o2"
    and username: "User o1 = User o2"
    and silent1: "chooserCalls (snd (resolve o1)) = []"
    and silent2: "chooserCalls (snd (resolve o2)) = []"
  shows "resolve o1 = resolve o2"
proof -
  obtain a1 e1 where c1: "Config o1 = (a1, e1)" by (cases "Config o1") auto
  obtain a2 e2 where c2: "Config o2 = (a2, e2)" by (cases "Config o2") auto
  from err c1 c2 have e: "e2 = e1" by simp
  from hosts users actives c1 c2
  have H: "Hosts a2 = Hosts a1" and U: "UsersForHost a1 = UsersForHost a2"
    and A: "AuthUser a1 = AuthUser a2"
    by simp_all
  show ?thesis
  proof (cases e1)
    case (Some x)
    with c1 c2 e show ?thesis by (simp add: resolve_def)
  next
    case None
    note cfg = c1 [unfolded None] c2 [unfolded e None]
    show ?thesis
    proof (cases "length (Hosts a1) = 0")
      case True
      with cfg H show ?thesis by (simp add: resolve_def)
    next
      case False
      obtain r1 tr1 where chk1: "checkFilters a1 (Hosts a1) (Hostname o1) (User o1) = (r1, tr1)"
        by (cases "checkFilters a1 (Hosts a1) (Hostname o1) (User o1)") auto
      with checkFilters_cong [OF U] H hostname username
      have chk2: "checkFilters a2 (Hosts a2) (Hostname o2) (User o2) = (r1, tr1)"
        by simp
      obtain r2 tr2 where loop1: "hostsLoop a1 (Hostname o1) (User o1) (Hosts a1) = (r2, tr2)"
        by (cases "hostsLoop a1 (Hostname o1) (User o1) (Hosts a1)") auto
      with hostsLoop_cong [OF U A] H hostname username
      have loop2: "hostsLoop a2 (Hostname o2) (User o2) (Hosts a2) = (r2, tr2)"
        by simp
      show ?thesis
      proof (cases r1)
        case (Some x)
        with cfg False H chk1 chk2 show ?thesis by (simp add: resolve_def)
      next
        case None
        show ?thesis
        proof (cases r2)
          case (Inl x)
          with cfg False H chk1 chk2 loop1 loop2 None show ?thesis
            by (simp add: resolve_def)
        next
          case (Inr cands)
          from False H have ne1: "length (Hosts a1) \<noteq> 0" and ne2: "length (Hosts a2) \<noteq> 0"
            by simp_all
          from resolve_continues [OF cfg(1) ne1 chk1 [unfolded None] loop1 [unfolded Inr]]
          have res1: "resolve o1 = emit ([EvConfig, EvHosts] @ tr1 @ tr2) (selectAccount o1 cands)" .
          from resolve_continues [OF cfg(2) ne2 chk2 [unfolded None] loop2 [unfolded Inr]]
          have res2: "resolve o2 = emit ([EvConfig, EvHosts] @ tr1 @ tr2) (selectAccount o2 cands)" .
          from silent1 res1 have "filter isSelect (snd (selectAccount o1 cands)) = []"
            by (simp add: chooserCalls_def snd_emit)
          moreover from silent2 res2 have "filter isSelect (snd (selectAccount o2 cands)) = []"
            by (simp add: chooserCalls_def snd_emit)
          ultimately have "selectAccount o1 cands = selectAccount o2 cands"
            by (rule selectAccount_silent_eq)
          with res1 res2 show ?thesis by simp
        qed
      qed
    qed
  qed
qed

theorem resolution_deterministic_witness:
  "resolve (exampleOpts\<lparr>Hostname := ''github.com''\<rparr>) =
     resolve (exampleOpts\<lparr>Hostname := ''github.com'', CanPrompt := False,
                          Select := (\<lambda>p d os. (0, Some SilentError)),
                          Config := (overriddenStore, None)\<rparr>)
   \<and> fst (resolve (exampleOpts\<lparr>Hostname := ''github.com''\<rparr>)) = Inr (''github.com'', ''bob'')"
proof -
  let ?o1 = "exampleOpts\<lparr>Hostname := ''github.com''\<rparr>"
  let ?o2 = "exampleOpts\<lparr>Hostname := ''github.com'', CanPrompt := False,
                         Select := (\<lambda>p d os. (0, Some SilentError)),
                         Config := (overriddenStore, None)\<rparr>"
  let ?cs = "[\<lparr>host = ''github.com'', user = ''alice'', active = True\<rparr>,
              \<lparr>host = ''github.com'', user = ''bob'', active = False\<rparr>]"
  let ?tr = "[EvUser ''github.com'', EvUsersForHost ''github.com'']"
  have cfg: "Config ?o1 = (exampleStore, None)" "Config ?o2 = (overriddenStore, None)"
    and ne: "length (Hosts exampleStore) \<noteq> 0" "length (Hosts overriddenStore) \<noteq> 0"
    and chk: "checkFilters exampleStore (Hosts exampleStore) (Hostname ?o1) (User ?o1)
                = (None, [])"
      "checkFilters overriddenStore (Hosts overriddenStore) (Hostname ?o2) (User ?o2)
                = (None, [])"
    and loop: "hostsLoop exampleStore (Hostname ?o1) (User ?o1) (Hosts exampleStore)
                = (Inr ?cs, ?tr)"
      "hostsLoop overriddenStore (Hostname ?o2) (User ?o2) (Hosts overriddenStore)
                = (Inr ?cs, ?tr)"
    by (simp_all add: exampleOpts_def overriddenStore_def exampleStore_def checkFilters_def)
  have sel: "selectAccount ?o1 ?cs = (Inr (''github.com'', ''bob''), [])"
    "selectAccount ?o2 ?cs = (Inr (''github.com'', ''bob''), [])"
    by (simp_all add: selectAccount_def)
  from resolve_continues [OF cfg(1) ne(1) chk(1) loop(1)] sel(1)
  have res1: "resolve ?o1 =
      (Inr (''github.com'', ''bob''),
       [EvConfig, EvHosts, EvUser ''github.com'', EvUsersForHost ''github.com''])"
    by simp
  from resolve_continues [OF cfg(2) ne(2) chk(2) loop(2)] sel(2)
  have res2: "resolve ?o2 =
      (Inr (''github.com'', ''bob''),
       [EvConfig, EvHosts, EvUser ''github.com'', EvUsersForHost ''github.com''])"
    by simp
  note res = res1 res2
  have same: "snd (Config ?o1) = snd (Config ?o2)"
    "Hosts (fst (Config ?o1)) = Hosts (fst (Config ?o2))"
    "UsersForHost (fst (Config ?o1)) = UsersForHost (fst (Config ?o2))"
    "AuthUser (fst (Config ?o1)) = AuthUser (fst (Config ?o2))"
    "Hostname ?o1 = Hostname ?o2" "User ?o1 = User ?o2"
    by (simp_all add: exampleOpts_def overriddenStore_def)
  have silent: "chooserCalls (snd (resolve ?o1)) = []" "chooserCalls (snd (resolve ?o2)) = []"
    by (simp_all add: res chooserCalls_def)
  have settled: "fst (resolve ?o1) = Inr (''github.com'', ''bob'')"
    by (simp add: res(1))
  from resolution_deterministic [OF same silent] settled show ?thesis
    by (rule conjI)
qed

section \<open>The fetch whose error is dropped\<close>

text \<open>
  C10. The check of the user flag against the users of the host flag reads the list that
  \<^verbatim>\<open>UsersForHost\<close> returns and drops its error: the check comes out the same on a store
  whose fetches return the same lists and no error. So when that fetch fails and the
  list it returns does not hold the user flag (as with the empty list of a failed
  fetch), the run ends with "not logged in as <user> on <host>" and not with the error
  of the fetch, while the loop over the hosts, on the same host, returns that error.
\<close>

theorem prevalidate_discards_fetch_error:
  assumes cfg: "Config opts = (authCfg, None)"
    and host_set: "Hostname opts \<noteq> []"
    and user_set: "User opts \<noteq> []"
    and known: "Hostname opts \<in> set (Hosts authCfg)"
    and fetch: "UsersForHost authCfg (Hostname opts) = (us, Some err)"
    and missing: "User opts \<notin> set us"
  shows "switchRun opts =
           (Failure (New (''not logged in as '' @ User opts @ '' on '' @ Hostname opts)),
            [EvConfig, EvHosts, EvUsersForHost (Hostname opts)])
       \<and> checkFilters authCfg (Hosts authCfg) (Hostname opts) (User opts) =
           checkFilters (authCfg\<lparr>UsersForHost := \<lambda>h. (fst (UsersForHost authCfg h), None)\<rparr>)
             (Hosts authCfg) (Hostname opts) (User opts)
       \<and> (snd (AuthUser authCfg (Hostname opts)) = None \<longrightarrow>
            hostsLoop authCfg (Hostname opts) (User opts) [Hostname opts] =
              (Inl err, [EvUser (Hostname opts), EvUsersForHost (Hostname opts)]))"
proof -
  from fetch missing
  have "User opts \<notin> set (fst (UsersForHost authCfg (Hostname opts)))" by simp
  note run = user_check_fails [OF cfg host_set user_set known this]
  have same: "checkFilters authCfg (Hosts authCfg) (Hostname opts) (User opts) =
      checkFilters (authCfg\<lparr>UsersForHost := \<lambda>h. (fst (UsersForHost authCfg h), None)\<rparr>)
        (Hosts authCfg) (Hostname opts) (User opts)"
    by (simp add: checkFilters_def)
  have "hostsLoop authCfg (Hostname opts) (User opts) [Hostname opts] =
      (Inl err, [EvUser (Hostname opts), EvUsersForHost (Hostname opts)])"
    if "snd (AuthUser authCfg (Hostname opts)) = None"
    using that fetch by (cases "AuthUser authCfg (Hostname opts)") simp
  with run same show ?thesis by blast
qed

theorem prevalidate_discards_fetch_error_witness:
  "UsersForHost lockedStore ''github.com'' = ([], Some (New ''keyring locked''))
   \<and> switchRun (exampleOpts\<lparr>Config := (lockedStore, None), Hostname := ''github.com'',
                             User := ''alice''\<rparr>) =
       (Failure (New ''not logged in as alice on github.com''),
        [EvConfig, EvHosts, EvUsersForHost ''github.com''])
   \<and> hostsLoop lockedStore ''github.com'' ''alice'' [''github.com''] =
       (Inl (New ''keyring locked''), [EvUser ''github.com'', EvUsersForHost ''github.com''])"
proof -
  let ?o = "exampleOpts\<lparr>Config := (lockedStore, None), Hostname := ''github.com'',
                        User := ''alice''\<rparr>"
  have cfg: "Config ?o = (lockedStore, None)"
    and host_set: "Hostname ?o \<noteq> []" and user_set: "User ?o \<noteq> []"
    and known: "Hostname ?o \<in> set (Hosts lockedStore)"
    and fetch: "UsersForHost lockedStore (Hostname ?o) = ([], Some (New ''keyring locked''))"
    and missing: "User ?o \<notin> set []"
    and active: "snd (AuthUser lockedStore (Hostname ?o)) = None"
    by (simp_all add: exampleOpts_def lockedStore_def exampleStore_def)
  note inst = prevalidate_discards_fetch_error [OF cfg host_set user_set known fetch missing]
  from inst [THEN conjunct1]
  have "switchRun ?o =
      (Failure (New ''not logged in as alice on github.com''),
       [EvConfig, EvHosts, EvUsersForHost ''github.com''])"
    by (simp add: exampleOpts_def)
  moreover from inst [THEN conjunct2, THEN conjunct2, rule_format, OF active]
  have "hostsLoop lockedStore ''github.com'' ''alice'' [''github.com''] =
      (Inl (New ''keyring locked''), [EvUser ''github.com'', EvUsersForHost ''github.com''])"
    by (simp add: exampleOpts_def)
  moreover from fetch
  have "UsersForHost lockedStore ''github.com'' = ([], Some (New ''keyring locked''))"
    by (simp add: exampleOpts_def)
  ultimately show ?thesis by blast
qed

end
